theory Spec2Isabelle
  imports Main
begin

section \<open>MoonDeck app proxy: the session-state coordinator\<close>

text \<open>
  A shallow embedding of the class \<open>MoonDeckAppProxy\<close> and of the function
  \<open>killRunner\<close>. The class holds one \<open>BehaviorSubject\<close> (the state slot), reads it
  through \<open>this.subject.value\<close> and writes it through \<open>this.subject.next\<close>, and reaches the
  host through \<open>setShortcutName\<close>, \<open>terminateApp\<close>, \<open>serverAPI.callPluginMethod\<close> and
  \<open>commandProxy.closeSteam\<close>.

  The model threads a world through every method: the value held by the subject, the state
  of the host, and the trace of everything the method did that is visible outside it (every
  \<open>next\<close>, every remote call with its outcome, every logger call), in the order of the
  source. Each method returns its result (or the exception it raises) together with the
  world it leaves behind.

  The four host operations are imported by the source and not defined in it, so they are
  parameters of the model: any function from the arguments and the host state to an
  outcome and a new host state. A remote call cannot write the subject, and calls into the
  coordinator are serialised, so between two steps of one method nothing else writes the
  subject.
\<close>

subsection \<open>Data\<close>

record SessionOptions =
  nameSetToAppId :: bool

text \<open>The two identities are application ids; they are modelled as integers.\<close>

record MoonDeckAppData =
  steamAppId :: int
  moonDeckAppId :: int
  name :: string
  redirected :: bool
  beingKilled :: bool
  beingSuspended :: bool
  sessionOptions :: SessionOptions

text \<open>What \<open>callPluginMethod\<close> gives: a response with its \<open>success\<close> flag and \<open>result\<close>,
  or an exception carrying a message.\<close>

datatype plugin_outcome = Response bool string | Throws string

text \<open>What an awaited call that may reject gives: completion, or the rejection reason.\<close>

datatype error = TypeError | Rejected string

datatype event =
    Next "MoonDeckAppData option"
  | SetShortcutName int string bool
  | TerminateApp int nat bool
  | CallPluginMethod string int plugin_outcome
  | CloseSteam bool "string option"
  | LoggerError string
  | LoggerCritical string
  | LoggerToast string string

record 'h host_api =
  setShortcutName :: "int \<Rightarrow> string \<Rightarrow> 'h \<Rightarrow> bool \<times> 'h"
  terminateApp :: "int \<Rightarrow> nat \<Rightarrow> 'h \<Rightarrow> bool \<times> 'h"
  callPluginMethod :: "string \<Rightarrow> int \<Rightarrow> 'h \<Rightarrow> plugin_outcome \<times> 'h"
  closeSteam :: "bool \<Rightarrow> 'h \<Rightarrow> string option \<times> 'h"

record 'h world =
  subject :: "MoonDeckAppData option"
  host :: 'h
  trace :: "event list"

text \<open>The constructor: \<open>new BehaviorSubject(null)\<close>, nothing done yet.\<close>

definition init_world :: "'h \<Rightarrow> 'h world" where
  "init_world h = \<lparr>subject = None, host = h, trace = []\<rparr>"

subsection \<open>The decimal text of an application id\<close>

text \<open>The template literal \<open>`${this.subject.value.steamAppId}`\<close> gives the decimal digits of
  the id, with a leading minus sign for a negative one.\<close>

definition digit_char :: "nat \<Rightarrow> char" where
  "digit_char d = char_of (48 + d)"

fun string_of_nat :: "nat \<Rightarrow> string" where
  "string_of_nat n =
     (if n < 10 then [digit_char n] else string_of_nat (n div 10) @ [digit_char (n mod 10)])"

declare string_of_nat.simps [simp del]

definition string_of_int :: "int \<Rightarrow> string" where
  "string_of_int i = (if i < 0 then CHR ''-'' # string_of_nat (nat (- i)) else string_of_nat (nat i))"

subsection \<open>Writing the subject, calling the host, logging\<close>

definition log_event :: "event \<Rightarrow> 'h world \<Rightarrow> 'h world" where
  "log_event e w = w\<lparr>trace := trace w @ [e]\<rparr>"

definition subject_next :: "MoonDeckAppData option \<Rightarrow> 'h world \<Rightarrow> 'h world" where
  "subject_next v w = log_event (Next v) (w\<lparr>subject := v\<rparr>)"

definition call_setShortcutName ::
    "'h host_api \<Rightarrow> int \<Rightarrow> string \<Rightarrow> 'h world \<Rightarrow> bool \<times> 'h world" where
  "call_setShortcutName api appId newName w =
     (case setShortcutName api appId newName (host w) of
        (r, h') \<Rightarrow> (r, log_event (SetShortcutName appId newName r) (w\<lparr>host := h'\<rparr>)))"

definition call_terminateApp ::
    "'h host_api \<Rightarrow> int \<Rightarrow> nat \<Rightarrow> 'h world \<Rightarrow> bool \<times> 'h world" where
  "call_terminateApp api appId timeout w =
     (case terminateApp api appId timeout (host w) of
        (r, h') \<Rightarrow> (r, log_event (TerminateApp appId timeout r) (w\<lparr>host := h'\<rparr>)))"

definition call_callPluginMethod ::
    "'h host_api \<Rightarrow> string \<Rightarrow> int \<Rightarrow> 'h world \<Rightarrow> plugin_outcome \<times> 'h world" where
  "call_callPluginMethod api method appId w =
     (case callPluginMethod api method appId (host w) of
        (r, h') \<Rightarrow> (r, log_event (CallPluginMethod method appId r) (w\<lparr>host := h'\<rparr>)))"

definition call_closeSteam ::
    "'h host_api \<Rightarrow> bool \<Rightarrow> 'h world \<Rightarrow> string option \<times> 'h world" where
  "call_closeSteam api force w =
     (case closeSteam api force (host w) of
        (r, h') \<Rightarrow> (r, log_event (CloseSteam force r) (w\<lparr>host := h'\<rparr>)))"

subsection \<open>killRunner\<close>

definition killRunner :: "'h host_api \<Rightarrow> int \<Rightarrow> 'h world \<Rightarrow> 'h world" where
  "killRunner api appId w =
     (case call_callPluginMethod api ''kill_runner'' appId w of
        (Response success result, w1) \<Rightarrow>
          if \<not> success
          then log_event (LoggerError (''Error while killing runner script: '' @ result)) w1
          else w1
      | (Throws message, w1) \<Rightarrow> log_event (LoggerCritical message) w1)"

subsection \<open>The methods of MoonDeckAppProxy\<close>

definition setApp :: "int \<Rightarrow> int \<Rightarrow> string \<Rightarrow> SessionOptions \<Rightarrow> 'h world \<Rightarrow> 'h world" where
  "setApp steamAppId' moonDeckAppId' name' sessionOptions' w =
     subject_next (Some \<lparr>steamAppId = steamAppId', moonDeckAppId = moonDeckAppId',
                         name = name', redirected = False, beingKilled = False,
                         beingSuspended = False, sessionOptions = sessionOptions'\<rparr>) w"

text \<open>After the awaited rename the source reads \<open>this.subject.value\<close> again; a null there
  would raise a TypeError at \<open>this.subject.value.sessionOptions\<close>.\<close>

definition changeName :: "'h host_api \<Rightarrow> bool \<Rightarrow> 'h world \<Rightarrow> (error + bool) \<times> 'h world" where
  "changeName api changeToAppId w =
     (case subject w of
        None \<Rightarrow> (Inr False, w)
      | Some v \<Rightarrow>
          (case (if changeToAppId
                 then call_setShortcutName api (moonDeckAppId v) (string_of_int (steamAppId v)) w
                 else call_setShortcutName api (moonDeckAppId v) (name v) w) of
             (result, w1) \<Rightarrow>
               if result
               then (case subject w1 of
                       None \<Rightarrow> (Inl TypeError, w1)
                     | Some cur \<Rightarrow>
                         let newValue =
                               cur\<lparr>sessionOptions :=
                                     (sessionOptions cur)\<lparr>nameSetToAppId := changeToAppId\<rparr>\<rparr>
                         in if cur \<noteq> newValue
                            then (Inr result, subject_next (Some newValue) w1)
                            else (Inr result, w1))
               else (Inr result, w1)))"

definition applySessionOptions :: "'h host_api \<Rightarrow> 'h world \<Rightarrow> (error + unit) \<times> 'h world" where
  "applySessionOptions api w =
     (case map_option sessionOptions (subject w) of
        None \<Rightarrow> (Inr (), w)
      | Some options \<Rightarrow>
          (case changeName api (nameSetToAppId options) w of
             (Inl e, w1) \<Rightarrow> (Inl e, w1)
           | (Inr ok, w1) \<Rightarrow>
               if \<not> ok
               then (Inr (), log_event (LoggerToast ''Failed to change shortcut name!'' ''warn'') w1)
               else (Inr (), w1)))"

definition canRedirect :: "'h world \<Rightarrow> bool \<times> 'h world" where
  "canRedirect w =
     (case subject w of
        None \<Rightarrow> (False, w)
      | Some v \<Rightarrow>
          if redirected v then (False, w)
          else (True, subject_next (Some (v\<lparr>redirected := True\<rparr>)) w))"

definition clearApp :: "'h host_api \<Rightarrow> 'h world \<Rightarrow> (error + unit) \<times> 'h world" where
  "clearApp api w =
     (case subject w of
        None \<Rightarrow> (Inr (), w)
      | Some v \<Rightarrow>
          (case changeName api False w of
             (Inl e, w1) \<Rightarrow> (Inl e, w1)
           | (Inr ok, w1) \<Rightarrow> (Inr (), subject_next None w1)))"

definition closeSteamOnHost :: "'h host_api \<Rightarrow> 'h world \<Rightarrow> (error + unit) \<times> 'h world" where
  "closeSteamOnHost api w =
     (case subject w of
        None \<Rightarrow> (Inr (), w)
      | Some v \<Rightarrow>
          (case call_closeSteam api False w of
             (Some reason, w1) \<Rightarrow> (Inl (Rejected reason), w1)
           | (None, w1) \<Rightarrow> (Inr (), w1)))"

text \<open>The last step of \<open>killApp\<close>, after the comment "Reset the original value".\<close>

definition reset_original :: "bool \<Rightarrow> 'h world \<Rightarrow> (error + unit) \<times> 'h world" where
  "reset_original nameSetToAppId' w =
     (if nameSetToAppId'
      then (case subject w of
              None \<Rightarrow> (Inl TypeError, w)
            | Some cur \<Rightarrow>
                let newValue =
                      cur\<lparr>sessionOptions :=
                            (sessionOptions cur)\<lparr>nameSetToAppId := nameSetToAppId'\<rparr>\<rparr>
                in if cur \<noteq> newValue
                   then (Inr (), subject_next (Some newValue) w)
                   else (Inr (), w))
      else (Inr (), w))"

text \<open>The terminate step with its fallback: \<open>terminateApp\<close> with the timeout 5000 and, when
  it answers false, the toast and \<open>killRunner\<close>. Each \<open>this.subject.value.moonDeckAppId\<close> is
  a fresh read of the subject.\<close>

definition terminate_or_kill :: "'h host_api \<Rightarrow> 'h world \<Rightarrow> (error + unit) \<times> 'h world" where
  "terminate_or_kill api w =
     (case subject w of
        None \<Rightarrow> (Inl TypeError, w)
      | Some v \<Rightarrow>
          (case call_terminateApp api (moonDeckAppId v) 5000 w of
             (ok, w1) \<Rightarrow>
               if \<not> ok
               then (let w2 = log_event (LoggerToast ''Failed to terminate, trying to kill!'' ''warn'') w1
                     in case subject w2 of
                          None \<Rightarrow> (Inl TypeError, w2)
                        | Some v2 \<Rightarrow> (Inr (), killRunner api (moonDeckAppId v2) w2))
               else (Inr (), w1)))"

definition killApp :: "'h host_api \<Rightarrow> 'h world \<Rightarrow> (error + unit) \<times> 'h world" where
  "killApp api w =
     (case subject w of
        None \<Rightarrow> (Inr (), w)
      | Some v \<Rightarrow>
          (let w1 = subject_next (Some (v\<lparr>beingKilled := True\<rparr>)) w
           in case subject w1 of
                None \<Rightarrow> (Inl TypeError, w1)
              | Some v1 \<Rightarrow>
                  (let nameSetToAppId' = nameSetToAppId (sessionOptions v1)
                   in case changeName api False w1 of
                        (Inl e, w2) \<Rightarrow> (Inl e, w2)
                      | (Inr ok, w2) \<Rightarrow>
                          (case terminate_or_kill api w2 of
                             (Inl e, w3) \<Rightarrow> (Inl e, w3)
                           | (Inr u, w3) \<Rightarrow> reset_original nameSetToAppId' w3))))"

definition suspendApp :: "'h host_api \<Rightarrow> 'h world \<Rightarrow> (error + unit) \<times> 'h world" where
  "suspendApp api w =
     (case subject w of
        None \<Rightarrow> (Inr (), w)
      | Some v \<Rightarrow> killApp api (subject_next (Some (v\<lparr>beingSuspended := True\<rparr>)) w))"


subsection \<open>Sequences of coordinator operations\<close>

text \<open>One call into the coordinator. A caller may run any of them in any order; the
  result of a call is dropped here, the world it leaves is kept (an exception does not undo
  what the method did before raising it).\<close>

datatype operation =
    SetApp int int string SessionOptions
  | ApplySessionOptions
  | ChangeName bool
  | CanRedirect
  | ClearApp
  | CloseSteamOnHost
  | KillApp
  | SuspendApp

fun run_operation :: "'h host_api \<Rightarrow> operation \<Rightarrow> 'h world \<Rightarrow> 'h world" where
  "run_operation api (SetApp a b n so) w = setApp a b n so w"
| "run_operation api ApplySessionOptions w = snd (applySessionOptions api w)"
| "run_operation api (ChangeName b) w = snd (changeName api b w)"
| "run_operation api CanRedirect w = snd (canRedirect w)"
| "run_operation api ClearApp w = snd (clearApp api w)"
| "run_operation api CloseSteamOnHost w = snd (closeSteamOnHost api w)"
| "run_operation api KillApp w = snd (killApp api w)"
| "run_operation api SuspendApp w = snd (suspendApp api w)"

fun run_operations :: "'h host_api \<Rightarrow> operation list \<Rightarrow> 'h world \<Rightarrow> 'h world" where
  "run_operations api [] w = w"
| "run_operations api (x # xs) w = run_operations api xs (run_operation api x w)"

text \<open>The operations that neither replace nor clear the session.\<close>

fun within_session :: "operation \<Rightarrow> bool" where
  "within_session (SetApp a b n so) = False"
| "within_session ClearApp = False"
| "within_session x = True"

subsection \<open>Reading a trace\<close>

text \<open>What a method added to the trace of the world it started from.\<close>

definition new_events :: "'h world \<Rightarrow> 'h world \<Rightarrow> event list" where
  "new_events w w' = drop (length (trace w)) (trace w')"

fun rename_calls :: "event list \<Rightarrow> (int \<times> string \<times> bool) list" where
  "rename_calls [] = []"
| "rename_calls (SetShortcutName appId newName r # es) = (appId, newName, r) # rename_calls es"
| "rename_calls (e # es) = rename_calls es"

fun notifications :: "event list \<Rightarrow> MoonDeckAppData option list" where
  "notifications [] = []"
| "notifications (Next v # es) = v # notifications es"
| "notifications (e # es) = notifications es"

fun terminate_calls :: "event list \<Rightarrow> (int \<times> nat \<times> bool) list" where
  "terminate_calls [] = []"
| "terminate_calls (TerminateApp appId timeout r # es) = (appId, timeout, r) # terminate_calls es"
| "terminate_calls (e # es) = terminate_calls es"

fun kill_runner_calls :: "event list \<Rightarrow> int list" where
  "kill_runner_calls [] = []"
| "kill_runner_calls (CallPluginMethod method appId r # es) =
     (if method = ''kill_runner'' then appId # kill_runner_calls es else kill_runner_calls es)"
| "kill_runner_calls (e # es) = kill_runner_calls es"

fun is_remote_call :: "event \<Rightarrow> bool" where
  "is_remote_call (SetShortcutName appId newName r) = True"
| "is_remote_call (TerminateApp appId timeout r) = True"
| "is_remote_call (CallPluginMethod method appId r) = True"
| "is_remote_call (CloseSteam force r) = True"
| "is_remote_call e = False"

definition marked_killed :: "MoonDeckAppData option \<Rightarrow> bool" where
  "marked_killed s = (case s of None \<Rightarrow> False | Some v \<Rightarrow> beingKilled v)"

text \<open>Replaying a trace from the value the subject held before it: every remote call in
  the trace happens while the subject holds a session with \<open>beingKilled\<close> set.\<close>

fun remote_calls_while_killed :: "MoonDeckAppData option \<Rightarrow> event list \<Rightarrow> bool" where
  "remote_calls_while_killed s [] = True"
| "remote_calls_while_killed s (Next v # es) = remote_calls_while_killed v es"
| "remote_calls_while_killed s (e # es) =
     ((if is_remote_call e then marked_killed s else True) \<and> remote_calls_while_killed s es)"

text \<open>A flag that is set in the earlier snapshot is set in the later one.\<close>

definition flags_kept :: "MoonDeckAppData \<Rightarrow> MoonDeckAppData \<Rightarrow> bool" where
  "flags_kept v v' =
     ((redirected v \<longrightarrow> redirected v') \<and> (beingKilled v \<longrightarrow> beingKilled v')
      \<and> (beingSuspended v \<longrightarrow> beingSuspended v'))"

text \<open>Replaying a trace from the snapshot held before it: the subject is never emptied and
  every snapshot written keeps the flags of the one it replaces. The result is the snapshot
  held at the end, or \<open>None\<close> when the trace breaks this.\<close>

fun flags_monotone :: "MoonDeckAppData \<Rightarrow> event list \<Rightarrow> MoonDeckAppData option" where
  "flags_monotone v [] = Some v"
| "flags_monotone v (Next None # es) = None"
| "flags_monotone v (Next (Some v') # es) = (if flags_kept v v' then flags_monotone v' es else None)"
| "flags_monotone v (e # es) = flags_monotone v es"

subsection \<open>Pieces of traces and snapshots used in the statements\<close>

definition rename_target :: "bool \<Rightarrow> MoonDeckAppData \<Rightarrow> string" where
  "rename_target b v = (if b then string_of_int (steamAppId v) else name v)"

definition with_override :: "bool \<Rightarrow> MoonDeckAppData \<Rightarrow> MoonDeckAppData" where
  "with_override b v = v\<lparr>sessionOptions := (sessionOptions v)\<lparr>nameSetToAppId := b\<rparr>\<rparr>"

definition killRunner_events :: "int \<Rightarrow> plugin_outcome \<Rightarrow> event list" where
  "killRunner_events appId po =
     CallPluginMethod ''kill_runner'' appId po #
       (case po of
          Response success result \<Rightarrow>
            if \<not> success then [LoggerError (''Error while killing runner script: '' @ result)] else []
        | Throws message \<Rightarrow> [LoggerCritical message])"

definition fallback_events :: "int \<Rightarrow> bool \<Rightarrow> plugin_outcome \<Rightarrow> event list" where
  "fallback_events appId ok po =
     (if ok then []
      else LoggerToast ''Failed to terminate, trying to kill!'' ''warn'' # killRunner_events appId po)"

definition restore_events :: "bool \<Rightarrow> MoonDeckAppData \<Rightarrow> event list" where
  "restore_events changed v = (if changed then [Next (Some v)] else [])"

text \<open>A world reached from an earlier one within a session: the trace has only grown, the
  subject still holds a session, and replaying the added events from the earlier snapshot
  ends in the snapshot now held.\<close>

definition session_step :: "'h world \<Rightarrow> MoonDeckAppData \<Rightarrow> 'h world \<Rightarrow> bool" where
  "session_step w v w' =
     (take (length (trace w)) (trace w') = trace w \<and> subject w' \<noteq> None
      \<and> flags_monotone v (new_events w w') = subject w')"

subsection \<open>A concrete host and a concrete session\<close>

text \<open>A host that counts the calls it receives and gives each operation a fixed answer,
  and the session of the scenario \<open>setApp(100, 555, "Game X", {nameSetToAppId: false})\<close> on
  a fresh proxy. They are used to run the model on concrete inputs.\<close>

definition fixed_host :: "bool \<Rightarrow> bool \<Rightarrow> plugin_outcome \<Rightarrow> string option \<Rightarrow> nat host_api" where
  "fixed_host rename_ok terminate_ok kill_outcome close_outcome =
     \<lparr>setShortcutName = (\<lambda>appId newName h. (rename_ok, Suc h)),
      terminateApp = (\<lambda>appId timeout h. (terminate_ok, Suc h)),
      callPluginMethod = (\<lambda>method appId h. (kill_outcome, Suc h)),
      closeSteam = (\<lambda>force h. (close_outcome, Suc h))\<rparr>"

definition game_x :: "nat world" where
  "game_x = setApp 100 555 ''Game X'' \<lparr>nameSetToAppId = False\<rparr> (init_world 0)"

definition game_x_overridden :: "nat world" where
  "game_x_overridden = setApp 100 555 ''Game X'' \<lparr>nameSetToAppId = True\<rparr> (init_world 0)"

section \<open>Properties\<close>

subsection \<open>What each method does to the world\<close>

lemmas run_defs = changeName_def call_setShortcutName_def call_terminateApp_def
  call_callPluginMethod_def call_closeSteam_def killRunner_def log_event_def subject_next_def
  new_events_def fixed_host_def reset_original_def terminate_or_kill_def killApp_def
  suspendApp_def clearApp_def canRedirect_def applySessionOptions_def closeSteamOnHost_def
  setApp_def Let_def

lemma data_eq_sessionOptions_update:
  "(v = v\<lparr>sessionOptions := s\<rparr>) = (sessionOptions v = s)"
  by (cases v) auto

lemma options_eq_update:
  "(s = s\<lparr>nameSetToAppId := b\<rparr>) = (nameSetToAppId s = b)"
  by (cases s) auto

lemma string_of_int_100: "string_of_int 100 = ''100''"
  by code_simp

lemma game_x_eq:
  "game_x = \<lparr>subject = Some \<lparr>steamAppId = 100, moonDeckAppId = 555, name = ''Game X'',
                 redirected = False, beingKilled = False, beingSuspended = False,
                 sessionOptions = \<lparr>nameSetToAppId = False\<rparr>\<rparr>,
             host = 0,
             trace = [Next (Some \<lparr>steamAppId = 100, moonDeckAppId = 555, name = ''Game X'',
                 redirected = False, beingKilled = False, beingSuspended = False,
                 sessionOptions = \<lparr>nameSetToAppId = False\<rparr>\<rparr>)]\<rparr>"
  by (simp add: game_x_def setApp_def init_world_def subject_next_def log_event_def)

lemma game_x_overridden_eq:
  "game_x_overridden =
     \<lparr>subject = Some \<lparr>steamAppId = 100, moonDeckAppId = 555, name = ''Game X'',
                 redirected = False, beingKilled = False, beingSuspended = False,
                 sessionOptions = \<lparr>nameSetToAppId = True\<rparr>\<rparr>,
      host = 0,
      trace = [Next (Some \<lparr>steamAppId = 100, moonDeckAppId = 555, name = ''Game X'',
                 redirected = False, beingKilled = False, beingSuspended = False,
                 sessionOptions = \<lparr>nameSetToAppId = True\<rparr>\<rparr>)]\<rparr>"
  by (simp add: game_x_overridden_def setApp_def init_world_def subject_next_def log_event_def)

lemma changeName_inactive: "subject w = None \<Longrightarrow> changeName api b w = (Inr False, w)"
  by (simp add: changeName_def)

lemma changeName_active:
  assumes "subject w = Some v"
    and "setShortcutName api (moonDeckAppId v) (rename_target b v) (host w) = (r, h')"
  shows "changeName api b w =
     (Inr r,
      if r \<and> nameSetToAppId (sessionOptions v) \<noteq> b
      then w\<lparr>subject := Some (with_override b v),
             host := h',
             trace := trace w @ [SetShortcutName (moonDeckAppId v) (rename_target b v) r,
                                 Next (Some (with_override b v))]\<rparr>
      else w\<lparr>host := h',
             trace := trace w @ [SetShortcutName (moonDeckAppId v) (rename_target b v) r]\<rparr>)"
  using assms
  by (auto simp: changeName_def call_setShortcutName_def log_event_def subject_next_def
      rename_target_def with_override_def data_eq_sessionOptions_update options_eq_update Let_def)

lemma killRunner_run:
  assumes "callPluginMethod api ''kill_runner'' appId (host w) = (po, h')"
  shows "killRunner api appId w = w\<lparr>host := h', trace := trace w @ killRunner_events appId po\<rparr>"
  using assms
  by (cases po) (simp_all add: killRunner_def call_callPluginMethod_def log_event_def
      killRunner_events_def)

lemma terminate_or_kill_active:
  assumes "subject w = Some v"
    and "terminateApp api (moonDeckAppId v) 5000 (host w) = (ok, h1)"
    and "callPluginMethod api ''kill_runner'' (moonDeckAppId v) h1 = (po, h2)"
  shows "terminate_or_kill api w =
     (Inr (), w\<lparr>host := (if ok then h1 else h2),
                trace := trace w @ TerminateApp (moonDeckAppId v) 5000 ok
                           # fallback_events (moonDeckAppId v) ok po\<rparr>)"
proof (cases ok)
  case True
  with assms show ?thesis
    by (simp add: terminate_or_kill_def call_terminateApp_def log_event_def fallback_events_def)
next
  case False
  let ?w2 = "w\<lparr>host := h1, trace := trace w @ [TerminateApp (moonDeckAppId v) 5000 False,
                 LoggerToast ''Failed to terminate, trying to kill!'' ''warn'']\<rparr>"
  have k: "killRunner api (moonDeckAppId v) ?w2
      = ?w2\<lparr>host := h2, trace := trace ?w2 @ killRunner_events (moonDeckAppId v) po\<rparr>"
    by (rule killRunner_run) (simp add: assms)
  from False assms show ?thesis
    by (simp add: terminate_or_kill_def call_terminateApp_def log_event_def fallback_events_def k)
qed

lemma reset_original_active:
  assumes "subject w = Some v"
  shows "reset_original b w =
     (Inr (), if b \<and> \<not> nameSetToAppId (sessionOptions v)
              then w\<lparr>subject := Some (with_override True v),
                     trace := trace w @ [Next (Some (with_override True v))]\<rparr>
              else w)"
  using assms
  by (auto simp: reset_original_def subject_next_def log_event_def with_override_def
      data_eq_sessionOptions_update options_eq_update Let_def)

lemma with_override_undo:
  "nameSetToAppId (sessionOptions v) \<Longrightarrow> with_override True (with_override False v) = v"
  by (cases v) (simp add: with_override_def)

lemma killApp_active:
  assumes v: "subject w = Some v"
    and r: "setShortcutName api (moonDeckAppId v) (name v) (host w) = (r, h1)"
    and t: "terminateApp api (moonDeckAppId v) 5000 h1 = (ok, h2)"
    and k: "callPluginMethod api ''kill_runner'' (moonDeckAppId v) h2 = (po, h3)"
  shows "killApp api w =
     (Inr (), w\<lparr>subject := Some (v\<lparr>beingKilled := True\<rparr>),
                host := (if ok then h2 else h3),
                trace := trace w @
                  Next (Some (v\<lparr>beingKilled := True\<rparr>))
                  # SetShortcutName (moonDeckAppId v) (name v) r
                  # restore_events (r \<and> nameSetToAppId (sessionOptions v))
                      (with_override False (v\<lparr>beingKilled := True\<rparr>))
                  @ TerminateApp (moonDeckAppId v) 5000 ok
                  # fallback_events (moonDeckAppId v) ok po
                  @ restore_events (r \<and> nameSetToAppId (sessionOptions v))
                      (v\<lparr>beingKilled := True\<rparr>)\<rparr>)"
proof -
  let ?v1 = "v\<lparr>beingKilled := True\<rparr>"
  let ?w1 = "subject_next (Some ?v1) w"
  let ?c = "r \<and> nameSetToAppId (sessionOptions v)"
  have w1: "subject ?w1 = Some ?v1" "host ?w1 = host w"
    "trace ?w1 = trace w @ [Next (Some ?v1)]"
    by (simp_all add: subject_next_def log_event_def)
  have r1: "setShortcutName api (moonDeckAppId ?v1) (rename_target False ?v1) (host ?w1) = (r, h1)"
    using r by (simp add: rename_target_def w1)
  note cn = changeName_active [OF w1(1) r1]
  define w2 where "w2 = snd (changeName api False ?w1)"
  have w2: "changeName api False ?w1 = (Inr r, w2)"
    unfolding w2_def by (simp add: cn)
  have s2: "subject w2 = Some (if ?c then with_override False ?v1 else ?v1)"
    unfolding w2_def by (simp add: cn w1)
  have h2: "host w2 = h1"
    unfolding w2_def by (simp add: cn)
  have t2: "trace w2 = trace w @ Next (Some ?v1) # SetShortcutName (moonDeckAppId v) (name v) r
               # restore_events ?c (with_override False ?v1)"
    unfolding w2_def by (simp add: cn w1 rename_target_def restore_events_def)
  let ?v2 = "if ?c then with_override False ?v1 else ?v1"
  have id2: "moonDeckAppId ?v2 = moonDeckAppId v" by (simp add: with_override_def)
  have t': "terminateApp api (moonDeckAppId ?v2) 5000 (host w2) = (ok, h2)"
    using t by (simp only: id2 h2)
  have k': "callPluginMethod api ''kill_runner'' (moonDeckAppId ?v2) h2 = (po, h3)"
    using k by (simp only: id2)
  note tk = terminate_or_kill_active [OF s2 t' k']
  let ?w3 = "w2\<lparr>host := (if ok then h2 else h3),
                trace := trace w2 @ TerminateApp (moonDeckAppId v) 5000 ok
                           # fallback_events (moonDeckAppId v) ok po\<rparr>"
  have tk': "terminate_or_kill api w2 = (Inr (), ?w3)"
    using tk by (simp only: id2)
  have s3: "subject ?w3 = Some ?v2" using s2 by simp
  note ro = reset_original_active [OF s3, of "nameSetToAppId (sessionOptions v)"]
  have kdef: "killApp api w = reset_original (nameSetToAppId (sessionOptions v)) ?w3"
    using v by (simp add: killApp_def Let_def w1 w2 tk' del: subject_next_def)
  have undo: "?c \<Longrightarrow> with_override True (with_override False ?v1) = ?v1"
    by (simp add: with_override_undo)
  have more2: "world.more w2 = world.more w"
    unfolding w2_def by (simp add: cn subject_next_def log_event_def)
  have "snd (reset_original (nameSetToAppId (sessionOptions v)) ?w3) =
      w\<lparr>subject := Some ?v1, host := (if ok then h2 else h3),
        trace := trace w @ Next (Some ?v1) # SetShortcutName (moonDeckAppId v) (name v) r
                  # restore_events ?c (with_override False ?v1)
                  @ TerminateApp (moonDeckAppId v) 5000 ok
                  # fallback_events (moonDeckAppId v) ok po
                  @ restore_events ?c ?v1\<rparr>"
    unfolding ro
    by (rule world.equality)
      (auto simp add: s2 h2 t2 more2 undo restore_events_def with_override_def)
  moreover have "fst (reset_original (nameSetToAppId (sessionOptions v)) ?w3) = Inr ()"
    unfolding ro by simp
  ultimately show ?thesis
    unfolding kdef by (simp add: prod_eq_iff)
qed

subsection \<open>changeName\<close>

text \<open>
  C7. \<open>changeName\<close> returns true if and only if the host rename call succeeded: with a
  session active it makes exactly one rename call and returns the answer of that call; when
  the answer is false the subject is left as it was and nothing is notified. With no
  session active it returns false and leaves the whole world (host and trace included) as it
  was, so no host call is made.
\<close>

theorem changeName_returns_host_answer:
  "(subject w = None \<longrightarrow> changeName api b w = (Inr False, w))
   \<and> (\<forall>v. subject w = Some v \<longrightarrow>
         (\<exists>r. rename_calls (new_events w (snd (changeName api b w)))
                  = [(moonDeckAppId v, rename_target b v, r)]
              \<and> fst (changeName api b w) = Inr r
              \<and> (\<not> r \<longrightarrow> subject (snd (changeName api b w)) = subject w
                        \<and> notifications (new_events w (snd (changeName api b w))) = [])))"
proof (intro conjI allI impI)
  assume "subject w = None"
  then show "changeName api b w = (Inr False, w)" by (rule changeName_inactive)
next
  fix v assume v: "subject w = Some v"
  obtain r h' where h: "setShortcutName api (moonDeckAppId v) (rename_target b v) (host w) = (r, h')"
    by (cases "setShortcutName api (moonDeckAppId v) (rename_target b v) (host w)")
  show "\<exists>r. rename_calls (new_events w (snd (changeName api b w)))
                  = [(moonDeckAppId v, rename_target b v, r)]
              \<and> fst (changeName api b w) = Inr r
              \<and> (\<not> r \<longrightarrow> subject (snd (changeName api b w)) = subject w
                        \<and> notifications (new_events w (snd (changeName api b w))) = [])"
    by (rule exI [of _ r]) (simp add: changeName_active [OF v h] new_events_def)
qed

theorem changeName_returns_host_answer_witness:
  "changeName (fixed_host False True (Response True []) None) True (init_world 0)
     = (Inr False, init_world 0)
   \<and> rename_calls (new_events game_x
        (snd (changeName (fixed_host False True (Response True []) None) True game_x)))
       = [(555, ''100'', False)]
   \<and> fst (changeName (fixed_host False True (Response True []) None) True game_x) = Inr False
   \<and> subject (snd (changeName (fixed_host False True (Response True []) None) True game_x))
       = subject game_x
   \<and> notifications (new_events game_x
        (snd (changeName (fixed_host False True (Response True []) None) True game_x))) = []"
  using changeName_returns_host_answer [of "init_world 0" "fixed_host False True (Response True []) None" True]
    changeName_returns_host_answer [of game_x "fixed_host False True (Response True []) None" True]
  by (simp add: init_world_def game_x_eq rename_target_def string_of_int_100 run_defs)


text \<open>
  C1 (as amended). \<open>setApp\<close> takes \<open>steamAppId\<close> first and \<open>moonDeckAppId\<close> second. For every
  active session, a successful \<open>changeName(true)\<close> makes exactly one rename call, addressed
  to \<open>moonDeckAppId\<close> (the second argument of \<open>setApp\<close>), with the decimal text of
  \<open>steamAppId\<close> (the first argument of \<open>setApp\<close>) as the new display name, and leaves the
  stored session with \<open>sessionOptions.nameSetToAppId = true\<close> and nothing else changed. After
  \<open>setApp(100, 555, "Game X", {nameSetToAppId: false})\<close> the rename call receives the id 555
  and the string "100".
\<close>

theorem changeName_identity_form_uses_steamAppId:
  assumes "subject w = Some v" and "fst (changeName api True w) = Inr True"
  shows "rename_calls (new_events w (snd (changeName api True w)))
           = [(moonDeckAppId v, string_of_int (steamAppId v), True)]
       \<and> subject (snd (changeName api True w))
           = Some (v\<lparr>sessionOptions := (sessionOptions v)\<lparr>nameSetToAppId := True\<rparr>\<rparr>)
       \<and> map_option (\<lambda>v'. nameSetToAppId (sessionOptions v')) (subject (snd (changeName api True w)))
           = Some True"
proof -
  obtain r h' where h: "setShortcutName api (moonDeckAppId v) (rename_target True v) (host w) = (r, h')"
    by (cases "setShortcutName api (moonDeckAppId v) (rename_target True v) (host w)")
  note cn = changeName_active [OF assms(1) h]
  from assms(2) have r: "r" by (simp add: cn)
  have same: "nameSetToAppId (sessionOptions v) \<Longrightarrow>
      v\<lparr>sessionOptions := (sessionOptions v)\<lparr>nameSetToAppId := True\<rparr>\<rparr> = v"
    by (cases v) simp
  show ?thesis
    using r same by (simp add: cn new_events_def rename_target_def with_override_def assms(1))
qed

theorem changeName_identity_form_uses_steamAppId_witness:
  "subject game_x = Some \<lparr>steamAppId = 100, moonDeckAppId = 555, name = ''Game X'',
                 redirected = False, beingKilled = False, beingSuspended = False,
                 sessionOptions = \<lparr>nameSetToAppId = False\<rparr>\<rparr>
   \<and> fst (changeName (fixed_host True True (Response True []) None) True game_x) = Inr True
   \<and> rename_calls (new_events game_x
        (snd (changeName (fixed_host True True (Response True []) None) True game_x)))
       = [(555, ''100'', True)]
   \<and> subject (snd (changeName (fixed_host True True (Response True []) None) True game_x))
       = Some \<lparr>steamAppId = 100, moonDeckAppId = 555, name = ''Game X'',
                 redirected = False, beingKilled = False, beingSuspended = False,
                 sessionOptions = \<lparr>nameSetToAppId = True\<rparr>\<rparr>"
proof -
  have s: "subject game_x = Some \<lparr>steamAppId = 100, moonDeckAppId = 555, name = ''Game X'',
                 redirected = False, beingKilled = False, beingSuspended = False,
                 sessionOptions = \<lparr>nameSetToAppId = False\<rparr>\<rparr>"
    by (simp add: game_x_eq)
  have ok: "fst (changeName (fixed_host True True (Response True []) None) True game_x) = Inr True"
    by (simp add: game_x_eq run_defs)
  from changeName_identity_form_uses_steamAppId [OF s ok] s ok show ?thesis
    by (simp add: string_of_int_100)
qed

text \<open>
  C1 as stated fails: after \<open>setApp(100, 555, "Game X", {nameSetToAppId: false})\<close> a
  successful \<open>changeName(true)\<close> makes one rename call, and the name it carries is "100",
  not "555".
\<close>

theorem changeName_identity_form_counterexample:
  "fst (changeName (fixed_host True True (Response True []) None) True game_x) = Inr True
   \<and> rename_calls (new_events game_x
        (snd (changeName (fixed_host True True (Response True []) None) True game_x)))
       = [(555, ''100'', True)]
   \<and> rename_calls (new_events game_x
        (snd (changeName (fixed_host True True (Response True []) None) True game_x)))
       \<noteq> [(555, ''555'', True)]"
  by (simp add: game_x_eq run_defs string_of_int_100)

text \<open>
  C10. With a session active, every \<open>changeName\<close> makes exactly one rename call, addressed
  to \<open>moonDeckAppId\<close> and carrying the target name, whatever the stored
  \<open>sessionOptions.nameSetToAppId\<close> is. When the stored flag already equals the requested
  value, the call is still made; only the notification is left out and the subject stays as
  it was.
\<close>

theorem changeName_always_calls_host:
  assumes "subject w = Some v"
  shows "(\<exists>r. rename_calls (new_events w (snd (changeName api b w)))
              = [(moonDeckAppId v, (if b then string_of_int (steamAppId v) else name v), r)])
       \<and> (nameSetToAppId (sessionOptions v) = b \<longrightarrow>
            notifications (new_events w (snd (changeName api b w))) = []
            \<and> subject (snd (changeName api b w)) = subject w)"
proof -
  obtain r h' where h: "setShortcutName api (moonDeckAppId v) (rename_target b v) (host w) = (r, h')"
    by (cases "setShortcutName api (moonDeckAppId v) (rename_target b v) (host w)")
  note cn = changeName_active [OF assms h]
  have "rename_calls (new_events w (snd (changeName api b w)))
              = [(moonDeckAppId v, (if b then string_of_int (steamAppId v) else name v), r)]"
    by (simp add: cn new_events_def rename_target_def)
  moreover have "nameSetToAppId (sessionOptions v) = b \<longrightarrow>
            notifications (new_events w (snd (changeName api b w))) = []
            \<and> subject (snd (changeName api b w)) = subject w"
    by (simp add: cn new_events_def)
  ultimately show ?thesis by blast
qed

theorem changeName_always_calls_host_witness:
  "subject game_x = Some \<lparr>steamAppId = 100, moonDeckAppId = 555, name = ''Game X'',
                 redirected = False, beingKilled = False, beingSuspended = False,
                 sessionOptions = \<lparr>nameSetToAppId = False\<rparr>\<rparr>
   \<and> rename_calls (new_events game_x
        (snd (changeName (fixed_host True True (Response True []) None) False game_x)))
       = [(555, ''Game X'', True)]
   \<and> notifications (new_events game_x
        (snd (changeName (fixed_host True True (Response True []) None) False game_x))) = []"
proof -
  have s: "subject game_x = Some \<lparr>steamAppId = 100, moonDeckAppId = 555, name = ''Game X'',
                 redirected = False, beingKilled = False, beingSuspended = False,
                 sessionOptions = \<lparr>nameSetToAppId = False\<rparr>\<rparr>"
    by (simp add: game_x_eq)
  from changeName_always_calls_host [OF s, of "fixed_host True True (Response True []) None" False] s
  show ?thesis
    by (simp add: game_x_eq run_defs)
qed

text \<open>
  C8. With a session active, two consecutive successful \<open>changeName\<close> calls with the same
  target value: the second one notifies nothing, so both together notify at most once (the
  notifications of the pair are those of the first call).
\<close>

theorem changeName_twice_notifies_once:
  assumes "subject w = Some v"
    and "changeName api b w = (Inr True, w1)"
    and "changeName api b w1 = (Inr True, w2)"
  shows "notifications (new_events w1 w2) = []
       \<and> length (notifications (new_events w w2)) \<le> 1
       \<and> notifications (new_events w w2) = notifications (new_events w w1)"
proof -
  obtain r h' where h: "setShortcutName api (moonDeckAppId v) (rename_target b v) (host w) = (r, h')"
    by (cases "setShortcutName api (moonDeckAppId v) (rename_target b v) (host w)")
  note cn = changeName_active [OF assms(1) h]
  let ?v1 = "if nameSetToAppId (sessionOptions v) \<noteq> b then with_override b v else v"
  from assms(2) have r: "r" by (simp add: cn)
  have w1: "subject w1 = Some ?v1"
    using assms(2) r assms(1) by (auto simp add: cn)
  have t1: "trace w1 = trace w @ SetShortcutName (moonDeckAppId v) (rename_target b v) True
              # restore_events (nameSetToAppId (sessionOptions v) \<noteq> b) (with_override b v)"
    using assms(2) r by (auto simp add: cn restore_events_def)
  have set1: "nameSetToAppId (sessionOptions ?v1) = b"
    by (simp add: with_override_def)
  obtain r2 h2 where h2: "setShortcutName api (moonDeckAppId ?v1) (rename_target b ?v1) (host w1) = (r2, h2)"
    by (cases "setShortcutName api (moonDeckAppId ?v1) (rename_target b ?v1) (host w1)")
  note cn2 = changeName_active [OF w1 h2]
  have t2: "trace w2 = trace w1 @ [SetShortcutName (moonDeckAppId ?v1) (rename_target b ?v1) r2]"
    using assms(3) set1 unfolding cn2 by auto
  show ?thesis
    unfolding new_events_def t2 t1
    by (simp add: restore_events_def)
qed

theorem changeName_twice_notifies_once_witness:
  "subject game_x = Some \<lparr>steamAppId = 100, moonDeckAppId = 555, name = ''Game X'',
                 redirected = False, beingKilled = False, beingSuspended = False,
                 sessionOptions = \<lparr>nameSetToAppId = False\<rparr>\<rparr>
   \<and> fst (changeName (fixed_host True True (Response True []) None) True game_x) = Inr True
   \<and> fst (changeName (fixed_host True True (Response True []) None) True
        (snd (changeName (fixed_host True True (Response True []) None) True game_x))) = Inr True
   \<and> notifications (new_events
        (snd (changeName (fixed_host True True (Response True []) None) True game_x))
        (snd (changeName (fixed_host True True (Response True []) None) True
           (snd (changeName (fixed_host True True (Response True []) None) True game_x))))) = []
   \<and> length (notifications (new_events game_x
        (snd (changeName (fixed_host True True (Response True []) None) True
           (snd (changeName (fixed_host True True (Response True []) None) True game_x))))))
       \<le> 1"
proof -
  let ?H = "fixed_host True True (Response True []) None"
  have s: "subject game_x = Some \<lparr>steamAppId = 100, moonDeckAppId = 555, name = ''Game X'',
                 redirected = False, beingKilled = False, beingSuspended = False,
                 sessionOptions = \<lparr>nameSetToAppId = False\<rparr>\<rparr>"
    by (simp add: game_x_eq)
  have f1: "fst (changeName ?H True game_x) = Inr True"
    by (simp add: game_x_eq run_defs)
  have f2: "fst (changeName ?H True (snd (changeName ?H True game_x))) = Inr True"
    by (simp add: game_x_eq run_defs)
  have c1: "changeName ?H True game_x = (Inr True, snd (changeName ?H True game_x))"
    using f1 by (simp add: prod_eq_iff)
  have c2: "changeName ?H True (snd (changeName ?H True game_x))
      = (Inr True, snd (changeName ?H True (snd (changeName ?H True game_x))))"
    using f2 by (simp add: prod_eq_iff)
  from changeName_twice_notifies_once [OF s c1 c2] s f1 f2 show ?thesis
    by blast
qed

subsection \<open>canRedirect\<close>

text \<open>
  C6. \<open>canRedirect\<close> returns false and changes nothing when no session is active or when
  \<open>redirected\<close> is already true. Otherwise it writes the snapshot with \<open>redirected = true\<close>
  (one notification) and returns true, and a second call right after it returns false and
  changes nothing. On the session that \<open>setApp\<close> creates, two consecutive calls return true
  then false.
\<close>

theorem canRedirect_latch:
  "(subject w = None \<longrightarrow> canRedirect w = (False, w))
   \<and> (\<forall>v. subject w = Some v \<and> redirected v \<longrightarrow> canRedirect w = (False, w))
   \<and> (\<forall>v. subject w = Some v \<and> \<not> redirected v \<longrightarrow>
         fst (canRedirect w) = True
         \<and> subject (snd (canRedirect w)) = Some (v\<lparr>redirected := True\<rparr>)
         \<and> new_events w (snd (canRedirect w)) = [Next (Some (v\<lparr>redirected := True\<rparr>))]
         \<and> fst (canRedirect (snd (canRedirect w))) = False
         \<and> snd (canRedirect (snd (canRedirect w))) = snd (canRedirect w))
   \<and> fst (canRedirect (setApp a m n so w)) = True
   \<and> fst (canRedirect (snd (canRedirect (setApp a m n so w)))) = False"
  by (simp add: canRedirect_def subject_next_def log_event_def new_events_def setApp_def)

theorem canRedirect_latch_witness:
  "canRedirect (init_world (0::nat)) = (False, init_world 0)
   \<and> fst (canRedirect game_x) = True
   \<and> fst (canRedirect (snd (canRedirect game_x))) = False
   \<and> canRedirect (snd (canRedirect game_x)) = (False, snd (canRedirect game_x))
   \<and> map_option redirected (subject (snd (canRedirect game_x))) = Some True"
  using canRedirect_latch [of "init_world (0::nat)" 0 0 "[]" "\<lparr>nameSetToAppId = False\<rparr>"]
    canRedirect_latch [of game_x 0 0 "[]" "\<lparr>nameSetToAppId = False\<rparr>"]
    canRedirect_latch [of "snd (canRedirect game_x)" 0 0 "[]" "\<lparr>nameSetToAppId = False\<rparr>"]
  by (simp add: init_world_def game_x_eq canRedirect_def subject_next_def log_event_def)

subsection \<open>clearApp\<close>

text \<open>
  C9. \<open>clearApp\<close> with no session active returns with the world as it was: nothing is
  notified and no call is made. With a session active it completes, its first step is the
  rename call to the stored human-readable name (\<open>changeName(false)\<close>), the stored flag is
  notified as cleared only if that call succeeded while the override was on, and its last
  step empties the subject. This holds whatever the rename call answers: its failure does
  not prevent the clearing.
\<close>

theorem clearApp_restores_then_empties:
  "(subject w = None \<longrightarrow> clearApp api w = (Inr (), w))
   \<and> (\<forall>v. subject w = Some v \<longrightarrow>
         fst (clearApp api w) = Inr ()
         \<and> subject (snd (clearApp api w)) = None
         \<and> (\<exists>r. new_events w (snd (clearApp api w)) =
                  SetShortcutName (moonDeckAppId v) (name v) r
                  # restore_events (r \<and> nameSetToAppId (sessionOptions v))
                      (v\<lparr>sessionOptions := (sessionOptions v)\<lparr>nameSetToAppId := False\<rparr>\<rparr>)
                  @ [Next None]))"
proof (intro conjI allI impI)
  assume "subject w = None"
  then show "clearApp api w = (Inr (), w)" by (simp add: clearApp_def)
next
  fix v assume v: "subject w = Some v"
  obtain r h' where h: "setShortcutName api (moonDeckAppId v) (rename_target False v) (host w) = (r, h')"
    by (cases "setShortcutName api (moonDeckAppId v) (rename_target False v) (host w)")
  note cn = changeName_active [OF v h]
  show "fst (clearApp api w) = Inr ()"
    by (simp add: clearApp_def v cn)
  show "subject (snd (clearApp api w)) = None"
    by (simp add: clearApp_def v cn subject_next_def log_event_def)
  have "new_events w (snd (clearApp api w)) =
                  SetShortcutName (moonDeckAppId v) (name v) r
                  # restore_events (r \<and> nameSetToAppId (sessionOptions v))
                      (v\<lparr>sessionOptions := (sessionOptions v)\<lparr>nameSetToAppId := False\<rparr>\<rparr>)
                  @ [Next None]"
    by (simp add: clearApp_def v cn subject_next_def log_event_def new_events_def
        restore_events_def rename_target_def with_override_def)
  then show "\<exists>r. new_events w (snd (clearApp api w)) =
                  SetShortcutName (moonDeckAppId v) (name v) r
                  # restore_events (r \<and> nameSetToAppId (sessionOptions v))
                      (v\<lparr>sessionOptions := (sessionOptions v)\<lparr>nameSetToAppId := False\<rparr>\<rparr>)
                  @ [Next None]"
    by blast
qed

theorem clearApp_restores_then_empties_witness:
  "clearApp (fixed_host False True (Response True []) None) (init_world 0)
     = (Inr (), init_world 0)
   \<and> fst (clearApp (fixed_host False True (Response True []) None) game_x_overridden) = Inr ()
   \<and> subject (snd (clearApp (fixed_host False True (Response True []) None) game_x_overridden))
       = None
   \<and> new_events game_x_overridden
        (snd (clearApp (fixed_host False True (Response True []) None) game_x_overridden))
       = [SetShortcutName 555 ''Game X'' False, Next None]"
  using clearApp_restores_then_empties [of "init_world 0" "fixed_host False True (Response True []) None"]
    clearApp_restores_then_empties [of game_x_overridden "fixed_host False True (Response True []) None"]
  by (simp add: init_world_def game_x_overridden_eq run_defs)


subsection \<open>killApp\<close>

lemma rename_calls_append: "rename_calls (xs @ ys) = rename_calls xs @ rename_calls ys"
  by (induction xs rule: rename_calls.induct) simp_all

lemma notifications_append: "notifications (xs @ ys) = notifications xs @ notifications ys"
  by (induction xs rule: notifications.induct) simp_all

lemma terminate_calls_append: "terminate_calls (xs @ ys) = terminate_calls xs @ terminate_calls ys"
  by (induction xs rule: terminate_calls.induct) simp_all

lemma kill_runner_calls_append:
  "kill_runner_calls (xs @ ys) = kill_runner_calls xs @ kill_runner_calls ys"
  by (induction xs rule: kill_runner_calls.induct) simp_all

lemma killRunner_events_read:
  "rename_calls (killRunner_events a po) = []"
  "notifications (killRunner_events a po) = []"
  "terminate_calls (killRunner_events a po) = []"
  "kill_runner_calls (killRunner_events a po) = [a]"
  by (cases po; simp add: killRunner_events_def)+

lemma fallback_events_read:
  "rename_calls (fallback_events a ok po) = []"
  "notifications (fallback_events a ok po) = []"
  "terminate_calls (fallback_events a ok po) = []"
  "kill_runner_calls (fallback_events a ok po) = (if ok then [] else [a])"
  by (simp_all add: fallback_events_def killRunner_events_read)

lemma restore_events_read:
  "rename_calls (restore_events c v) = []"
  "notifications (restore_events c v) = (if c then [Some v] else [])"
  "terminate_calls (restore_events c v) = []"
  "kill_runner_calls (restore_events c v) = []"
  by (simp_all add: restore_events_def)

lemmas trace_read = rename_calls_append notifications_append terminate_calls_append
  kill_runner_calls_append fallback_events_read restore_events_read

lemma killApp_inactive: "subject w = None \<Longrightarrow> killApp api w = (Inr (), w)"
  by (simp add: killApp_def)

lemma killApp_events:
  assumes "subject w = Some v"
  shows "\<exists>r ok po.
     fst (killApp api w) = Inr ()
     \<and> subject (snd (killApp api w)) = Some (v\<lparr>beingKilled := True\<rparr>)
     \<and> new_events w (snd (killApp api w)) =
          Next (Some (v\<lparr>beingKilled := True\<rparr>))
          # SetShortcutName (moonDeckAppId v) (name v) r
          # restore_events (r \<and> nameSetToAppId (sessionOptions v))
              (with_override False (v\<lparr>beingKilled := True\<rparr>))
          @ TerminateApp (moonDeckAppId v) 5000 ok
          # fallback_events (moonDeckAppId v) ok po
          @ restore_events (r \<and> nameSetToAppId (sessionOptions v)) (v\<lparr>beingKilled := True\<rparr>)"
proof -
  obtain r h1 where r: "setShortcutName api (moonDeckAppId v) (name v) (host w) = (r, h1)"
    by (cases "setShortcutName api (moonDeckAppId v) (name v) (host w)")
  obtain ok h2 where t: "terminateApp api (moonDeckAppId v) 5000 h1 = (ok, h2)"
    by (cases "terminateApp api (moonDeckAppId v) 5000 h1")
  obtain po h3 where k: "callPluginMethod api ''kill_runner'' (moonDeckAppId v) h2 = (po, h3)"
    by (cases "callPluginMethod api ''kill_runner'' (moonDeckAppId v) h2")
  note ka = killApp_active [OF assms r t k]
  show ?thesis
    apply (rule exI [of _ r])
    apply (rule exI [of _ ok])
    apply (rule exI [of _ po])
    apply (simp add: ka new_events_def)
    done
qed

lemma remote_calls_while_killed_suffices:
  assumes "marked_killed s" and "list_all marked_killed (notifications es)"
  shows "remote_calls_while_killed s es"
  using assms
proof (induction es arbitrary: s)
  case Nil
  then show ?case by simp
next
  case (Cons e es)
  then show ?case by (cases e) simp_all
qed

text \<open>
  C2. For every active session whose \<open>sessionOptions.nameSetToAppId\<close> is true when
  \<open>killApp\<close> is called: \<open>killApp\<close> completes, the stored session at the end is the one at
  the start with \<open>beingKilled\<close> set, so its \<open>sessionOptions.nameSetToAppId\<close> is true again,
  and \<open>killApp\<close> makes exactly one rename call, the one to the human-readable name. The
  restoration at the end is a write of the subject only: when the rename succeeded the
  snapshots notified are the marked one, the one with the flag cleared and the marked one
  again; when it failed the flag was never cleared and only the marked one is notified.
\<close>

theorem killApp_restores_override_flag:
  assumes "subject w = Some v" and "nameSetToAppId (sessionOptions v)"
  shows "fst (killApp api w) = Inr ()
       \<and> subject (snd (killApp api w)) = Some (v\<lparr>beingKilled := True\<rparr>)
       \<and> map_option (\<lambda>v'. nameSetToAppId (sessionOptions v')) (subject (snd (killApp api w)))
           = Some True
       \<and> (\<exists>r. rename_calls (new_events w (snd (killApp api w)))
                  = [(moonDeckAppId v, name v, r)]
              \<and> notifications (new_events w (snd (killApp api w)))
                  = Some (v\<lparr>beingKilled := True\<rparr>)
                    # (if r then [Some (v\<lparr>beingKilled := True,
                                        sessionOptions := (sessionOptions v)\<lparr>nameSetToAppId := False\<rparr>\<rparr>),
                                  Some (v\<lparr>beingKilled := True\<rparr>)]
                       else []))"
proof -
  from killApp_events [OF assms(1), of api] obtain r ok po where
    f: "fst (killApp api w) = Inr ()"
    and s: "subject (snd (killApp api w)) = Some (v\<lparr>beingKilled := True\<rparr>)"
    and e: "new_events w (snd (killApp api w)) =
          Next (Some (v\<lparr>beingKilled := True\<rparr>))
          # SetShortcutName (moonDeckAppId v) (name v) r
          # restore_events (r \<and> nameSetToAppId (sessionOptions v))
              (with_override False (v\<lparr>beingKilled := True\<rparr>))
          @ TerminateApp (moonDeckAppId v) 5000 ok
          # fallback_events (moonDeckAppId v) ok po
          @ restore_events (r \<and> nameSetToAppId (sessionOptions v)) (v\<lparr>beingKilled := True\<rparr>)"
    by blast
  have "rename_calls (new_events w (snd (killApp api w))) = [(moonDeckAppId v, name v, r)]"
    unfolding e by (simp add: trace_read)
  moreover have "notifications (new_events w (snd (killApp api w)))
                  = Some (v\<lparr>beingKilled := True\<rparr>)
                    # (if r then [Some (v\<lparr>beingKilled := True,
                                        sessionOptions := (sessionOptions v)\<lparr>nameSetToAppId := False\<rparr>\<rparr>),
                                  Some (v\<lparr>beingKilled := True\<rparr>)]
                       else [])"
    unfolding e using assms(2) by (simp add: trace_read with_override_def)
  ultimately show ?thesis
    using f s assms(2) by auto
qed

theorem killApp_restores_override_flag_witness:
  "subject game_x_overridden = Some \<lparr>steamAppId = 100, moonDeckAppId = 555, name = ''Game X'',
                 redirected = False, beingKilled = False, beingSuspended = False,
                 sessionOptions = \<lparr>nameSetToAppId = True\<rparr>\<rparr>
   \<and> nameSetToAppId (sessionOptions \<lparr>steamAppId = 100, moonDeckAppId = 555, name = ''Game X'',
                 redirected = False, beingKilled = False, beingSuspended = False,
                 sessionOptions = \<lparr>nameSetToAppId = True\<rparr>\<rparr>)
   \<and> fst (killApp (fixed_host True True (Response True []) None) game_x_overridden) = Inr ()
   \<and> subject (snd (killApp (fixed_host True True (Response True []) None) game_x_overridden))
       = Some \<lparr>steamAppId = 100, moonDeckAppId = 555, name = ''Game X'',
                 redirected = False, beingKilled = True, beingSuspended = False,
                 sessionOptions = \<lparr>nameSetToAppId = True\<rparr>\<rparr>
   \<and> rename_calls (new_events game_x_overridden
        (snd (killApp (fixed_host True True (Response True []) None) game_x_overridden)))
       = [(555, ''Game X'', True)]"
proof -
  have s: "subject game_x_overridden = Some \<lparr>steamAppId = 100, moonDeckAppId = 555, name = ''Game X'',
                 redirected = False, beingKilled = False, beingSuspended = False,
                 sessionOptions = \<lparr>nameSetToAppId = True\<rparr>\<rparr>"
    by (simp add: game_x_overridden_eq)
  have n: "nameSetToAppId (sessionOptions \<lparr>steamAppId = 100, moonDeckAppId = 555, name = ''Game X'',
                 redirected = False, beingKilled = False, beingSuspended = False,
                 sessionOptions = \<lparr>nameSetToAppId = True\<rparr>\<rparr>)"
    by simp
  from killApp_restores_override_flag [OF s n, of "fixed_host True True (Response True []) None"] s n
  show ?thesis
    by (simp add: game_x_overridden_eq run_defs data_eq_sessionOptions_update)
qed

text \<open>
  C3. For every active session, \<open>killApp\<close> makes exactly one \<open>terminateApp\<close> call, for
  \<open>moonDeckAppId\<close> with the timeout 5000, and the \<open>kill_runner\<close> plugin method is called
  exactly once (for the same id) when that call answers false and not at all when it
  answers true.
\<close>

theorem killApp_fallback_iff_terminate_fails:
  assumes "subject w = Some v"
  shows "\<exists>ok. terminate_calls (new_events w (snd (killApp api w))) = [(moonDeckAppId v, 5000, ok)]
            \<and> kill_runner_calls (new_events w (snd (killApp api w)))
                = (if ok then [] else [moonDeckAppId v])"
proof -
  from killApp_events [OF assms, of api] obtain r ok po where
    e: "new_events w (snd (killApp api w)) =
          Next (Some (v\<lparr>beingKilled := True\<rparr>))
          # SetShortcutName (moonDeckAppId v) (name v) r
          # restore_events (r \<and> nameSetToAppId (sessionOptions v))
              (with_override False (v\<lparr>beingKilled := True\<rparr>))
          @ TerminateApp (moonDeckAppId v) 5000 ok
          # fallback_events (moonDeckAppId v) ok po
          @ restore_events (r \<and> nameSetToAppId (sessionOptions v)) (v\<lparr>beingKilled := True\<rparr>)"
    by blast
  have "terminate_calls (new_events w (snd (killApp api w))) = [(moonDeckAppId v, 5000, ok)]"
    unfolding e by (simp add: trace_read)
  moreover have "kill_runner_calls (new_events w (snd (killApp api w)))
                = (if ok then [] else [moonDeckAppId v])"
    unfolding e by (simp add: trace_read)
  ultimately show ?thesis by blast
qed

theorem killApp_fallback_iff_terminate_fails_witness:
  "subject game_x = Some \<lparr>steamAppId = 100, moonDeckAppId = 555, name = ''Game X'',
                 redirected = False, beingKilled = False, beingSuspended = False,
                 sessionOptions = \<lparr>nameSetToAppId = False\<rparr>\<rparr>
   \<and> terminate_calls (new_events game_x
        (snd (killApp (fixed_host True False (Throws ''unreachable'') None) game_x)))
       = [(555, 5000, False)]
   \<and> kill_runner_calls (new_events game_x
        (snd (killApp (fixed_host True False (Throws ''unreachable'') None) game_x))) = [555]
   \<and> terminate_calls (new_events game_x
        (snd (killApp (fixed_host True True (Throws ''unreachable'') None) game_x)))
       = [(555, 5000, True)]
   \<and> kill_runner_calls (new_events game_x
        (snd (killApp (fixed_host True True (Throws ''unreachable'') None) game_x))) = []"
proof -
  have s: "subject game_x = Some \<lparr>steamAppId = 100, moonDeckAppId = 555, name = ''Game X'',
                 redirected = False, beingKilled = False, beingSuspended = False,
                 sessionOptions = \<lparr>nameSetToAppId = False\<rparr>\<rparr>"
    by (simp add: game_x_eq)
  from killApp_fallback_iff_terminate_fails [OF s, of "fixed_host True False (Throws ''unreachable'') None"]
    killApp_fallback_iff_terminate_fails [OF s, of "fixed_host True True (Throws ''unreachable'') None"] s
  show ?thesis
    by (simp add: game_x_eq run_defs data_eq_sessionOptions_update)
qed

text \<open>
  C4. For every active session, \<open>killApp\<close> completes, the first thing it does is write the
  snapshot with \<open>beingKilled = true\<close>, every remote call it makes (rename, terminate,
  kill_runner) happens while the subject holds a session with \<open>beingKilled = true\<close>, and the
  stored session at the end has \<open>beingKilled = true\<close>, whatever the host answers.
\<close>

theorem killApp_marks_before_remote_calls:
  assumes "subject w = Some v"
  shows "fst (killApp api w) = Inr ()
       \<and> take 1 (new_events w (snd (killApp api w))) = [Next (Some (v\<lparr>beingKilled := True\<rparr>))]
       \<and> remote_calls_while_killed (subject w) (new_events w (snd (killApp api w)))
       \<and> map_option beingKilled (subject (snd (killApp api w))) = Some True"
proof -
  from killApp_events [OF assms, of api] obtain r ok po where
    f: "fst (killApp api w) = Inr ()"
    and s: "subject (snd (killApp api w)) = Some (v\<lparr>beingKilled := True\<rparr>)"
    and e: "new_events w (snd (killApp api w)) =
          Next (Some (v\<lparr>beingKilled := True\<rparr>))
          # SetShortcutName (moonDeckAppId v) (name v) r
          # restore_events (r \<and> nameSetToAppId (sessionOptions v))
              (with_override False (v\<lparr>beingKilled := True\<rparr>))
          @ TerminateApp (moonDeckAppId v) 5000 ok
          # fallback_events (moonDeckAppId v) ok po
          @ restore_events (r \<and> nameSetToAppId (sessionOptions v)) (v\<lparr>beingKilled := True\<rparr>)"
    by blast
  let ?rest = "SetShortcutName (moonDeckAppId v) (name v) r
          # restore_events (r \<and> nameSetToAppId (sessionOptions v))
              (with_override False (v\<lparr>beingKilled := True\<rparr>))
          @ TerminateApp (moonDeckAppId v) 5000 ok
          # fallback_events (moonDeckAppId v) ok po
          @ restore_events (r \<and> nameSetToAppId (sessionOptions v)) (v\<lparr>beingKilled := True\<rparr>)"
  have "remote_calls_while_killed (Some (v\<lparr>beingKilled := True\<rparr>)) ?rest"
    by (rule remote_calls_while_killed_suffices)
      (simp_all add: trace_read marked_killed_def with_override_def)
  then have "remote_calls_while_killed (subject w) (new_events w (snd (killApp api w)))"
    unfolding e by simp
  moreover have "take 1 (new_events w (snd (killApp api w))) = [Next (Some (v\<lparr>beingKilled := True\<rparr>))]"
    unfolding e by simp
  ultimately show ?thesis using f s by simp
qed

theorem killApp_marks_before_remote_calls_witness:
  "subject game_x = Some \<lparr>steamAppId = 100, moonDeckAppId = 555, name = ''Game X'',
                 redirected = False, beingKilled = False, beingSuspended = False,
                 sessionOptions = \<lparr>nameSetToAppId = False\<rparr>\<rparr>
   \<and> new_events game_x (snd (killApp (fixed_host True False (Response False ''no'') None) game_x))
      = [Next (Some \<lparr>steamAppId = 100, moonDeckAppId = 555, name = ''Game X'',
                 redirected = False, beingKilled = True, beingSuspended = False,
                 sessionOptions = \<lparr>nameSetToAppId = False\<rparr>\<rparr>),
         SetShortcutName 555 ''Game X'' True,
         TerminateApp 555 5000 False,
         LoggerToast ''Failed to terminate, trying to kill!'' ''warn'',
         CallPluginMethod ''kill_runner'' 555 (Response False ''no''),
         LoggerError ''Error while killing runner script: no'']
   \<and> remote_calls_while_killed (subject game_x)
        (new_events game_x (snd (killApp (fixed_host True False (Response False ''no'') None) game_x)))
   \<and> map_option beingKilled
        (subject (snd (killApp (fixed_host True False (Response False ''no'') None) game_x)))
       = Some True
   \<and> \<not> remote_calls_while_killed (subject game_x) [SetShortcutName 555 ''Game X'' True]"
proof -
  have s: "subject game_x = Some \<lparr>steamAppId = 100, moonDeckAppId = 555, name = ''Game X'',
                 redirected = False, beingKilled = False, beingSuspended = False,
                 sessionOptions = \<lparr>nameSetToAppId = False\<rparr>\<rparr>"
    by (simp add: game_x_eq)
  from killApp_marks_before_remote_calls [OF s, of "fixed_host True False (Response False ''no'') None"] s
  show ?thesis
    by (simp add: game_x_eq run_defs data_eq_sessionOptions_update marked_killed_def)
qed


subsection \<open>The flags within a session\<close>

lemma flags_kept_refl: "flags_kept v v"
  by (simp add: flags_kept_def)

lemma flags_kept_trans: "flags_kept a b \<Longrightarrow> flags_kept b c \<Longrightarrow> flags_kept a c"
  by (simp add: flags_kept_def)

lemma flags_monotone_append:
  "flags_monotone v (xs @ ys) =
     (case flags_monotone v xs of None \<Rightarrow> None | Some v' \<Rightarrow> flags_monotone v' ys)"
proof (induction xs arbitrary: v)
  case Nil
  show ?case by simp
next
  case (Cons e es)
  show ?case
  proof (cases e)
    case (Next s)
    then show ?thesis using Cons.IH by (cases s) simp_all
  qed (simp_all add: Cons.IH)
qed

lemma flags_monotone_kept: "flags_monotone v es = Some v' \<Longrightarrow> flags_kept v v'"
proof (induction es arbitrary: v)
  case Nil
  then show ?case by (simp add: flags_kept_refl)
next
  case (Cons e es)
  show ?case
  proof (cases e)
    case (Next s)
    show ?thesis
    proof (cases s)
      case None
      with Next Cons.prems show ?thesis by simp
    next
      case (Some u)
      with Next Cons.prems have k: "flags_kept v u" and m: "flags_monotone u es = Some v'"
        by (simp_all split: if_splits)
      from Cons.IH [OF m] k show ?thesis by (rule flags_kept_trans [rotated])
    qed
  qed (use Cons in simp_all)
qed

lemma flags_monotone_quiet: "notifications es = [] \<Longrightarrow> flags_monotone v es = Some v"
proof (induction es)
  case Nil
  show ?case by simp
next
  case (Cons e es)
  then show ?case by (cases e) simp_all
qed

lemma flags_monotone_fallback: "flags_monotone v (fallback_events a ok po) = Some v"
  by (rule flags_monotone_quiet) (rule fallback_events_read)

lemma flags_kept_simps:
  "flags_kept v (with_override b v)"
  "flags_kept v (v\<lparr>redirected := True\<rparr>)"
  "flags_kept v (v\<lparr>beingKilled := True\<rparr>)"
  "flags_kept v (v\<lparr>beingSuspended := True\<rparr>)"
  "flags_kept (v\<lparr>beingKilled := True\<rparr>) (with_override b (v\<lparr>beingKilled := True\<rparr>))"
  "flags_kept (with_override b (v\<lparr>beingKilled := True\<rparr>)) (v\<lparr>beingKilled := True\<rparr>)"
  by (simp_all add: flags_kept_def with_override_def)

lemma session_step_iff:
  "session_step w v w' =
     (\<exists>es. trace w' = trace w @ es \<and> subject w' \<noteq> None \<and> flags_monotone v es = subject w')"
proof
  assume a: "session_step w v w'"
  then have "trace w' = trace w @ new_events w w'"
    unfolding session_step_def new_events_def
    by (metis append_take_drop_id)
  with a show "\<exists>es. trace w' = trace w @ es \<and> subject w' \<noteq> None \<and> flags_monotone v es = subject w'"
    unfolding session_step_def by blast
next
  assume "\<exists>es. trace w' = trace w @ es \<and> subject w' \<noteq> None \<and> flags_monotone v es = subject w'"
  then show "session_step w v w'"
    unfolding session_step_def new_events_def by auto
qed

lemma changeName_step:
  assumes "subject w = Some v"
  shows "session_step w v (snd (changeName api b w))"
proof -
  obtain r h' where h: "setShortcutName api (moonDeckAppId v) (rename_target b v) (host w) = (r, h')"
    by (cases "setShortcutName api (moonDeckAppId v) (rename_target b v) (host w)")
  show ?thesis
    unfolding session_step_iff changeName_active [OF assms h]
    by (auto simp: assms flags_kept_simps)
qed

lemma applySessionOptions_step:
  assumes "subject w = Some v"
  shows "session_step w v (snd (applySessionOptions api w))"
proof -
  let ?b = "nameSetToAppId (sessionOptions v)"
  obtain r h' where h: "setShortcutName api (moonDeckAppId v) (rename_target ?b v) (host w) = (r, h')"
    by (cases "setShortcutName api (moonDeckAppId v) (rename_target ?b v) (host w)")
  show ?thesis
    unfolding session_step_iff
    by (cases r) (simp_all add: applySessionOptions_def assms changeName_active [OF assms h]
        log_event_def)
qed

lemma canRedirect_step:
  assumes "subject w = Some v"
  shows "session_step w v (snd (canRedirect w))"
  unfolding session_step_iff
  by (simp add: canRedirect_def assms subject_next_def log_event_def flags_kept_simps)

lemma closeSteamOnHost_step:
  assumes "subject w = Some v"
  shows "session_step w v (snd (closeSteamOnHost api w))"
proof -
  obtain r h' where h: "closeSteam api False (host w) = (r, h')"
    by (cases "closeSteam api False (host w)")
  show ?thesis
    unfolding session_step_iff
    by (cases r) (simp_all add: closeSteamOnHost_def call_closeSteam_def assms h log_event_def)
qed

lemma killApp_step:
  assumes "subject w = Some v"
  shows "session_step w v (snd (killApp api w))"
proof -
  obtain r h1 where r: "setShortcutName api (moonDeckAppId v) (name v) (host w) = (r, h1)"
    by (cases "setShortcutName api (moonDeckAppId v) (name v) (host w)")
  obtain ok h2 where t: "terminateApp api (moonDeckAppId v) 5000 h1 = (ok, h2)"
    by (cases "terminateApp api (moonDeckAppId v) 5000 h1")
  obtain po h3 where k: "callPluginMethod api ''kill_runner'' (moonDeckAppId v) h2 = (po, h3)"
    by (cases "callPluginMethod api ''kill_runner'' (moonDeckAppId v) h2")
  show ?thesis
    unfolding session_step_iff killApp_active [OF assms r t k]
    by (simp add: flags_monotone_append flags_monotone_fallback flags_kept_simps
        restore_events_def)
qed

lemma session_step_trans:
  assumes "session_step w v w1" and "subject w1 = Some v1" and "session_step w1 v1 w2"
  shows "session_step w v w2"
proof -
  from assms(1) obtain es where e: "trace w1 = trace w @ es" "flags_monotone v es = subject w1"
    unfolding session_step_iff by blast
  from assms(3) obtain fs where f: "trace w2 = trace w1 @ fs" "subject w2 \<noteq> None"
    "flags_monotone v1 fs = subject w2"
    unfolding session_step_iff by blast
  have "trace w2 = trace w @ (es @ fs)" using e f by simp
  moreover have "flags_monotone v (es @ fs) = subject w2"
    using e f assms(2) by (simp add: flags_monotone_append)
  ultimately show ?thesis
    unfolding session_step_iff using f(2) by blast
qed

lemma subject_next_step:
  assumes "subject w = Some v" and "flags_kept v v'"
  shows "session_step w v (subject_next (Some v') w)"
  unfolding session_step_iff using assms
  by (simp add: subject_next_def log_event_def)

lemma suspendApp_step:
  assumes "subject w = Some v"
  shows "session_step w v (snd (suspendApp api w))"
proof -
  let ?v1 = "v\<lparr>beingSuspended := True\<rparr>"
  let ?w1 = "subject_next (Some ?v1) w"
  have a: "session_step w v ?w1"
    by (rule subject_next_step [OF assms]) (rule flags_kept_simps)
  have s1: "subject ?w1 = Some ?v1"
    by (simp add: subject_next_def log_event_def)
  have b: "session_step ?w1 ?v1 (snd (killApp api ?w1))"
    by (rule killApp_step [OF s1])
  have "snd (suspendApp api w) = snd (killApp api ?w1)"
    by (simp add: suspendApp_def assms)
  with session_step_trans [OF a s1 b] show ?thesis by simp
qed

lemma run_operation_step:
  assumes "subject w = Some v" and "within_session x"
  shows "session_step w v (run_operation api x w)"
  using assms
  by (cases x)
    (simp_all add: changeName_step applySessionOptions_step canRedirect_step
      closeSteamOnHost_step killApp_step suspendApp_step)

lemma session_step_refl: "subject w = Some v \<Longrightarrow> session_step w v w"
  by (simp add: session_step_iff)

lemma run_operations_step:
  assumes "subject w = Some v" and "list_all within_session xs"
  shows "session_step w v (run_operations api xs w)"
  using assms
proof (induction xs arbitrary: w v)
  case Nil
  then show ?case by (simp add: session_step_refl)
next
  case (Cons x xs)
  from Cons.prems have st: "session_step w v (run_operation api x w)"
    by (simp add: run_operation_step)
  then obtain v1 where v1: "subject (run_operation api x w) = Some v1"
    unfolding session_step_iff by auto
  from Cons.prems have "session_step (run_operation api x w) v1
      (run_operations api xs (run_operation api x w))"
    by (intro Cons.IH [OF v1]) simp
  from session_step_trans [OF st v1 this] show ?case by simp
qed

text \<open>
  C5. Within a session (any sequence of coordinator operations other than \<open>setApp\<close> and
  \<open>clearApp\<close>, started with a session active, whatever the host answers): the subject
  still holds a session at the end, every snapshot written on the way keeps each of the
  flags \<open>redirected\<close>, \<open>beingKilled\<close> and \<open>beingSuspended\<close> that was set in the snapshot it
  replaces, and so a flag that is set at the start is set at the end.
\<close>

theorem flags_monotone_within_session:
  assumes "subject w = Some v" and "list_all within_session xs"
  shows "\<exists>v'. subject (run_operations api xs w) = Some v'
            \<and> flags_monotone v (new_events w (run_operations api xs w)) = Some v'
            \<and> (redirected v \<longrightarrow> redirected v')
            \<and> (beingKilled v \<longrightarrow> beingKilled v')
            \<and> (beingSuspended v \<longrightarrow> beingSuspended v')"
proof -
  from run_operations_step [OF assms, of api] obtain es where
    t: "trace (run_operations api xs w) = trace w @ es"
    and n: "subject (run_operations api xs w) \<noteq> None"
    and m: "flags_monotone v es = subject (run_operations api xs w)"
    unfolding session_step_iff by blast
  from n obtain v' where v': "subject (run_operations api xs w) = Some v'" by auto
  have e: "new_events w (run_operations api xs w) = es"
    by (simp add: new_events_def t)
  from m v' have "flags_kept v v'" by (simp add: flags_monotone_kept)
  with v' m e show ?thesis by (simp add: flags_kept_def)
qed

theorem flags_monotone_within_session_witness:
  "subject game_x = Some \<lparr>steamAppId = 100, moonDeckAppId = 555, name = ''Game X'',
                 redirected = False, beingKilled = False, beingSuspended = False,
                 sessionOptions = \<lparr>nameSetToAppId = False\<rparr>\<rparr>
   \<and> list_all within_session
        [CanRedirect, ChangeName True, SuspendApp, ApplySessionOptions, CloseSteamOnHost,
         CanRedirect, KillApp]
   \<and> subject (run_operations (fixed_host True False (Throws ''gone'') (Some ''busy''))
        [CanRedirect, ChangeName True, SuspendApp, ApplySessionOptions, CloseSteamOnHost,
         CanRedirect, KillApp] game_x)
      = Some \<lparr>steamAppId = 100, moonDeckAppId = 555, name = ''Game X'',
                 redirected = True, beingKilled = True, beingSuspended = True,
                 sessionOptions = \<lparr>nameSetToAppId = True\<rparr>\<rparr>
   \<and> flags_monotone \<lparr>steamAppId = 100, moonDeckAppId = 555, name = ''Game X'',
                 redirected = False, beingKilled = False, beingSuspended = False,
                 sessionOptions = \<lparr>nameSetToAppId = False\<rparr>\<rparr>
        (new_events game_x (run_operations (fixed_host True False (Throws ''gone'') (Some ''busy''))
          [CanRedirect, ChangeName True, SuspendApp, ApplySessionOptions, CloseSteamOnHost,
           CanRedirect, KillApp] game_x))
      = Some \<lparr>steamAppId = 100, moonDeckAppId = 555, name = ''Game X'',
                 redirected = True, beingKilled = True, beingSuspended = True,
                 sessionOptions = \<lparr>nameSetToAppId = True\<rparr>\<rparr>"
proof -
  have s: "subject game_x = Some \<lparr>steamAppId = 100, moonDeckAppId = 555, name = ''Game X'',
                 redirected = False, beingKilled = False, beingSuspended = False,
                 sessionOptions = \<lparr>nameSetToAppId = False\<rparr>\<rparr>"
    by (simp add: game_x_eq)
  have l: "list_all within_session
        [CanRedirect, ChangeName True, SuspendApp, ApplySessionOptions, CloseSteamOnHost,
         CanRedirect, KillApp]"
    by simp
  have r: "subject (run_operations (fixed_host True False (Throws ''gone'') (Some ''busy''))
        [CanRedirect, ChangeName True, SuspendApp, ApplySessionOptions, CloseSteamOnHost,
         CanRedirect, KillApp] game_x)
      = Some \<lparr>steamAppId = 100, moonDeckAppId = 555, name = ''Game X'',
                 redirected = True, beingKilled = True, beingSuspended = True,
                 sessionOptions = \<lparr>nameSetToAppId = True\<rparr>\<rparr>"
    by (simp add: game_x_eq run_defs data_eq_sessionOptions_update string_of_int_100)
  from flags_monotone_within_session [OF s l, of "fixed_host True False (Throws ''gone'') (Some ''busy'')"]
    s l r
  show ?thesis by simp
qed

end
